theory Spec2Isabelle
  imports Main "HOL-Library.Word"
begin

section \<open>Strings\<close>

text \<open>
  A JavaScript string is a sequence of UTF-16 code units. Every string the program
  compares (the part-of-speech tags of the tagger) lies in the Basic Multilingual Plane,
  so each character is one code unit.
\<close>

type_synonym jsstring = "16 word list"

definition ascii :: "string \<Rightarrow> jsstring" where
  "ascii s = map (\<lambda>c. of_nat (of_char c)) s"

text \<open>The tags of the IPA dictionary that \<open>groupTokens\<close> tests, as code units.\<close>

definition pos_verb :: jsstring where
  \<comment> \<open>U+52D5 U+8A5E, "doushi"\<close>
  "pos_verb = [0x52D5, 0x8A5E]"

definition pos_auxiliary_verb :: jsstring where
  \<comment> \<open>U+52A9 U+52D5 U+8A5E, "jodoushi"\<close>
  "pos_auxiliary_verb = [0x52A9, 0x52D5, 0x8A5E]"

definition pos_particle :: jsstring where
  \<comment> \<open>U+52A9 U+8A5E, "joshi"\<close>
  "pos_particle = [0x52A9, 0x8A5E]"

definition pos_noun :: jsstring where
  \<comment> \<open>U+540D U+8A5E, "meishi"\<close>
  "pos_noun = [0x540D, 0x8A5E]"

definition detail_conjunctive_particle :: jsstring where
  \<comment> \<open>U+63A5 U+7D9A U+52A9 U+8A5E, "setsuzoku-joshi"\<close>
  "detail_conjunctive_particle = [0x63A5, 0x7D9A, 0x52A9, 0x8A5E]"

definition detail_sentence_final_particle :: jsstring where
  \<comment> \<open>U+7D42 U+52A9 U+8A5E, "shuu-joshi"\<close>
  "detail_sentence_final_particle = [0x7D42, 0x52A9, 0x8A5E]"

definition detail_non_independent :: jsstring where
  \<comment> \<open>U+975E U+81EA U+7ACB, "hijiritsu"\<close>
  "detail_non_independent = [0x975E, 0x81EA, 0x7ACB]"

definition detail_suffix :: jsstring where
  \<comment> \<open>U+63A5 U+5C3E, "setsubi"\<close>
  "detail_suffix = [0x63A5, 0x5C3E]"


section \<open>Tokens and words\<close>

text \<open>
  The raw token of kuromoji.js (interface \<open>KuromojiToken\<close>). The interface declares
  \<open>reading\<close> a string, but the tagger leaves the field undefined on unknown words, and
  \<open>groupTokens\<close> guards the read with \<open>||\<close>; the field is therefore optional here.
\<close>

record KuromojiToken =
  surface_form :: jsstring
  pos :: jsstring
  pos_detail_1 :: jsstring
  pos_detail_2 :: jsstring
  pos_detail_3 :: jsstring
  conjugated_type :: jsstring
  conjugated_form :: jsstring
  basic_form :: jsstring
  reading :: "jsstring option"
  pronunciation :: "jsstring option"

text \<open>The internal token \<open>[surface, reading, pos]\<close>, and a word: a group of tokens.\<close>

type_synonym AnalyzedToken = "jsstring \<times> jsstring \<times> jsstring"
type_synonym AnalyzedWord = "AnalyzedToken list"

definition tok_surface :: "AnalyzedToken \<Rightarrow> jsstring" where
  \<comment> \<open>\<open>token[0]\<close>\<close>
  "tok_surface t = fst t"

definition tok_reading :: "AnalyzedToken \<Rightarrow> jsstring" where
  \<comment> \<open>\<open>token[1]\<close>\<close>
  "tok_reading t = fst (snd t)"

definition tok_pos :: "AnalyzedToken \<Rightarrow> jsstring" where
  \<comment> \<open>\<open>token[2]\<close>\<close>
  "tok_pos t = snd (snd t)"

text \<open>
  \<open>a || b\<close> on a possibly undefined string: \<open>undefined\<close> and the empty string are
  the falsy values.
\<close>

definition js_or :: "jsstring option \<Rightarrow> jsstring \<Rightarrow> jsstring" where
  "js_or a b = (case a of None \<Rightarrow> b | Some s \<Rightarrow> if s = [] then b else s)"

definition newToken :: "KuromojiToken \<Rightarrow> AnalyzedToken" where
  "newToken token =
     (surface_form token, js_or (reading token) (surface_form token), pos token)"


section \<open>Grouping tokens into words\<close>

text \<open>
  The body of the \<open>forEach\<close> of \<open>groupTokens\<close>, on the pair of the two variables it
  updates: \<open>wordList\<close> and \<open>currentWord\<close>.
\<close>

fun group_step ::
  "AnalyzedWord list \<times> AnalyzedWord \<Rightarrow> KuromojiToken \<Rightarrow> AnalyzedWord list \<times> AnalyzedWord"
where
  "group_step (wordList, currentWord) token =
     (if length currentWord = 0 then (wordList, currentWord @ [newToken token])
      else
        let prevPos = tok_pos (currentWord ! (length currentWord - 1)) in
        if (pos token = pos_auxiliary_verb \<and> prevPos = pos_verb) \<or>
           (pos token = pos_particle \<and>
              (pos_detail_1 token = detail_conjunctive_particle \<or>
               pos_detail_1 token = detail_sentence_final_particle)) \<or>
           (pos token = pos_verb \<and> prevPos = pos_verb \<and>
              pos_detail_1 token = detail_non_independent) \<or>
           (pos token = pos_noun \<and> pos_detail_1 token = detail_suffix)
        then (wordList, currentWord @ [newToken token])
        else (wordList @ [currentWord], [newToken token]))"

text \<open>
  \<open>groupTokens\<close>. Its argument is an array of tokens, so of the guard
  \<open>!tokens || tokens.length === 0\<close> the length test is the one that can hold.
\<close>

definition groupTokens :: "KuromojiToken list \<Rightarrow> AnalyzedWord list" where
  "groupTokens tokens =
     (if length tokens = 0 then []
      else
        case foldl group_step ([], []) tokens of
          (wordList, currentWord) \<Rightarrow>
            if length currentWord > 0 then wordList @ [currentWord] else wordList)"

text \<open>
  The continuation rule in the words of the specification: the current token continues
  the open word if any of the four clauses holds, \<open>prevPOS\<close> being the part of speech
  of the last token of the open word.
\<close>

definition continuation_rule :: "jsstring \<Rightarrow> KuromojiToken \<Rightarrow> bool" where
  "continuation_rule prevPOS current \<longleftrightarrow>
     (pos current = pos_auxiliary_verb \<and> prevPOS = pos_verb) \<or>
     (pos current = pos_particle \<and>
        pos_detail_1 current \<in> {detail_conjunctive_particle, detail_sentence_final_particle}) \<or>
     (pos current = pos_verb \<and> prevPOS = pos_verb \<and>
        pos_detail_1 current = detail_non_independent) \<or>
     (pos current = pos_noun \<and> pos_detail_1 current = detail_suffix)"

text \<open>A token with the given surface, reading and tags; the other fields are \<open>*\<close>.\<close>

definition mk_token ::
  "jsstring \<Rightarrow> jsstring option \<Rightarrow> jsstring \<Rightarrow> jsstring \<Rightarrow> KuromojiToken" where
  "mk_token s r p d =
     \<lparr>surface_form = s, pos = p, pos_detail_1 = d, pos_detail_2 = ascii ''*'',
      pos_detail_3 = ascii ''*'', conjugated_type = ascii ''*'',
      conjugated_form = ascii ''*'', basic_form = s, reading = r, pronunciation = r\<rparr>"

text \<open>The tokens of the grouping scenario: tabe / ta / no / neko / tachi.\<close>

definition tok_tabe :: KuromojiToken where
  "tok_tabe = mk_token [0x98DF, 0x3079] (Some [0x30BF, 0x30D9]) pos_verb [0x81EA, 0x7ACB]"

definition tok_ta :: KuromojiToken where
  "tok_ta = mk_token [0x305F] (Some [0x30BF]) pos_auxiliary_verb (ascii ''*'')"

definition tok_no :: KuromojiToken where
  "tok_no = mk_token [0x306E] (Some [0x30CE]) pos_particle detail_conjunctive_particle"

definition tok_neko :: KuromojiToken where
  "tok_neko = mk_token [0x732B] (Some [0x30CD, 0x30B3]) pos_noun [0x4E00, 0x822C]"

definition tok_tachi :: KuromojiToken where
  "tok_tachi = mk_token [0x305F, 0x3061] (Some [0x30BF, 0x30C1]) pos_noun detail_suffix"

definition tok_iru :: KuromojiToken where
  \<comment> \<open>iru, a verb tagged non-independent\<close>
  "tok_iru = mk_token [0x3044, 0x308B] (Some [0x30A4, 0x30EB]) pos_verb detail_non_independent"

definition tok_unknown :: KuromojiToken where
  \<comment> \<open>an unknown word: the tagger gives it no reading\<close>
  "tok_unknown = mk_token (ascii ''Bunsekikun'') None pos_noun [0x4E00, 0x822C]"


section \<open>Dictionary lookup\<close>

text \<open>The entry of the Jisho.org API (interfaces \<open>JishoData\<close>, \<open>JishoSense\<close>).\<close>

record JishoJapaneseWord =
  jp_word :: "jsstring option"
  jp_reading :: "jsstring option"

record JishoSense =
  english_definitions :: "jsstring list"
  parts_of_speech :: "jsstring list"
  links :: "(jsstring \<times> jsstring) list"
  sense_tags :: "jsstring list"
  restrictions :: "jsstring list"
  see_also :: "jsstring list"
  antonyms :: "jsstring list"
  info :: "jsstring list"

record JishoData =
  slug :: jsstring
  is_common :: bool
  tags :: "jsstring list"
  jlpt :: "jsstring list"
  japanese :: "JishoJapaneseWord list"
  senses :: "JishoSense list"
  attribution :: "bool \<times> bool \<times> (bool + jsstring)"

text \<open>
  What \<open>fetch\<close> and \<open>response.json()\<close> can give for one request: the fetch promise
  rejects (no response), or there is a response with its \<open>ok\<close> flag, its status and a
  body; the body either does not parse to an object, or is an object whose \<open>data\<close>
  field is absent or a list of entries.
\<close>

datatype json_body = Unparseable | Json (data: "JishoData list option")

datatype fetch_outcome =
    Rejected
  | Response bool nat json_body  \<comment> \<open>\<open>response.ok\<close>, \<open>response.status\<close>, the body\<close>

datatype lookup_error = FetchRejected | CallFailedWithStatus nat | BodyUnreadable

text \<open>
  \<open>getWordMeaningWithJisho\<close>; the network is the parameter \<open>fetch\<close>, from the keyword
  to the outcome of the request to the proxy route (building its URL included).
  \<open>Inl\<close> is the thrown error.
\<close>

definition getWordMeaningWithJisho ::
  "(jsstring \<Rightarrow> fetch_outcome) \<Rightarrow> jsstring \<Rightarrow> lookup_error + JishoData option" where
  "getWordMeaningWithJisho fetch word =
     (case fetch word of
        Rejected \<Rightarrow> Inl FetchRejected
      | Response ok status body \<Rightarrow>
          if \<not> ok then Inl (CallFailedWithStatus status)
          else
            (case body of
               Unparseable \<Rightarrow> Inl BodyUnreadable
             | Json result_data \<Rightarrow>
                 (case result_data of
                    None \<Rightarrow> Inr None
                  | Some entries \<Rightarrow>
                      if length entries > 0 then Inr (Some (entries ! 0)) else Inr None)))"

text \<open>
  A failed call in the words of the specification: the transport fails (the request is
  rejected) or the status is not ok.
\<close>

definition call_failed :: "fetch_outcome \<Rightarrow> bool" where
  "call_failed outcome \<longleftrightarrow>
     (case outcome of
        Rejected \<Rightarrow> True
      | Response ok status body \<Rightarrow> \<not> ok)"


section \<open>The word panel\<close>

text \<open>
  The component \<open>WordInfo\<close>: its prop \<open>selectedWord\<close>, its three state variables, and
  the lookups it has started and that have not settled yet (the base form each was
  started with, oldest first). The component keeps nothing else about a lookup.
\<close>

record WordInfo =
  wi_selectedWord :: "AnalyzedWord option"
  jishoData :: "JishoData option"
  wi_isLoading :: bool
  wi_error :: jsstring
  in_flight :: "jsstring list"

definition WordInfo_init :: WordInfo where
  "WordInfo_init =
     \<lparr>wi_selectedWord = None, jishoData = None, wi_isLoading = False, wi_error = [],
      in_flight = []\<rparr>"

definition fetch_failed_message :: jsstring where
  "fetch_failed_message = ascii ''Failed to fetch definition from Jisho.org.''"

text \<open>
  The effect on \<open>[selectedWord]\<close>, up to the \<open>await\<close> of \<open>fetchMeaning\<close>. Reading
  \<open>selectedWord[0][0]\<close> of an empty word throws inside the \<open>try\<close>, before any request.
\<close>

definition WordInfo_effect :: "WordInfo \<Rightarrow> WordInfo" where
  "WordInfo_effect s =
     (case wi_selectedWord s of
        None \<Rightarrow> s\<lparr>jishoData := None\<rparr>
      | Some selectedWord \<Rightarrow>
          let s1 = s\<lparr>wi_isLoading := True, wi_error := [], jishoData := None\<rparr> in
          (case selectedWord of
             [] \<Rightarrow> s1\<lparr>wi_error := fetch_failed_message, wi_isLoading := False\<rparr>
           | token # _ \<Rightarrow> s1\<lparr>in_flight := in_flight s1 @ [tok_surface token]\<rparr>))"

text \<open>The rest of \<open>fetchMeaning\<close>, run when the request for \<open>baseForm\<close> has settled.\<close>

definition fetchMeaning_resume :: "fetch_outcome \<Rightarrow> jsstring \<Rightarrow> WordInfo \<Rightarrow> WordInfo" where
  "fetchMeaning_resume outcome baseForm s =
     (case getWordMeaningWithJisho (\<lambda>_. outcome) baseForm of
        Inr result \<Rightarrow> s\<lparr>jishoData := result, wi_isLoading := False\<rparr>
      | Inl err \<Rightarrow> s\<lparr>wi_error := fetch_failed_message, wi_isLoading := False\<rparr>)"

text \<open>
  The events of the panel: the prop \<open>selectedWord\<close> changes (the effect runs), or the
  request at position \<open>i\<close> of the pending ones settles with an outcome.
\<close>

datatype event = Select "AnalyzedWord option" | Settle nat fetch_outcome

fun WordInfo_step :: "WordInfo \<Rightarrow> event \<Rightarrow> WordInfo" where
  "WordInfo_step s (Select w) = WordInfo_effect (s\<lparr>wi_selectedWord := w\<rparr>)"
| "WordInfo_step s (Settle i outcome) =
     (if i < length (in_flight s)
      then fetchMeaning_resume outcome (in_flight s ! i)
             (s\<lparr>in_flight := take i (in_flight s) @ drop (Suc i) (in_flight s)\<rparr>)
      else s)"

definition WordInfo_run :: "WordInfo \<Rightarrow> event list \<Rightarrow> WordInfo" where
  "WordInfo_run s evs = foldl WordInfo_step s evs"

text \<open>Two words, neko and inu, and a successful response with one entry for each.\<close>

definition word_neko :: AnalyzedWord where
  "word_neko = [([0x732B], [0x30CD, 0x30B3], pos_noun)]"

definition word_inu :: AnalyzedWord where
  "word_inu = [([0x72AC], [0x30A4, 0x30CC], pos_noun)]"

definition mk_entry :: "jsstring \<Rightarrow> string \<Rightarrow> JishoData" where
  "mk_entry w meaning =
     \<lparr>slug = w, is_common = True, tags = [], jlpt = [],
      japanese = [\<lparr>jp_word = Some w, jp_reading = None\<rparr>],
      senses = [\<lparr>english_definitions = [ascii meaning], parts_of_speech = [ascii ''Noun''],
                 links = [], sense_tags = [], restrictions = [], see_also = [],
                 antonyms = [], info = []\<rparr>],
      attribution = (True, False, Inl False)\<rparr>"

definition entry_neko :: JishoData where
  "entry_neko = mk_entry [0x732B] ''cat''"

definition entry_inu :: JishoData where
  "entry_inu = mk_entry [0x72AC] ''dog''"

definition found :: "JishoData list \<Rightarrow> fetch_outcome" where
  "found entries = Response True 200 (Json (Some entries))"

text \<open>
  The race: neko is selected, then inu; the lookup of inu settles first and the lookup
  of neko last.
\<close>

definition race_late_first :: WordInfo where
  "race_late_first =
     WordInfo_run WordInfo_init
       [Select (Some word_neko), Select (Some word_inu),
        Settle 1 (found [entry_inu]), Settle 0 (found [entry_neko])]"


section \<open>The page\<close>

datatype js_exception = Thrown

record KuromojiTokenizer =
  tokenize :: "jsstring \<Rightarrow> js_exception + KuromojiToken list"

record AnalysisResult =
  word_list :: "AnalyzedWord list"

text \<open>
  The state of \<open>App\<close>: its six state variables, the module variable
  \<open>kuromojiTokenizer\<close>, and the texts on which \<open>tokenize\<close> has been called so far.
\<close>

record App =
  inputText :: jsstring
  analysis :: "AnalysisResult option"
  selectedWord :: "AnalyzedWord option"
  isLoading :: bool
  tokenizerLoading :: bool
  error :: "jsstring option"
  kuromojiTokenizer :: "KuromojiTokenizer option"
  tokenize_calls :: "jsstring list"

definition App_init :: App where
  "App_init =
     \<lparr>inputText = [0x543E, 0x8F29, 0x306F, 0x732B, 0x3067, 0x3042, 0x308B, 0x3002,
                   0x540D, 0x524D, 0x306F, 0x307E, 0x3060, 0x7121, 0x3044],
      analysis = None, selectedWord = None, isLoading = False, tokenizerLoading = True,
      error = None, kuromojiTokenizer = None, tokenize_calls = []\<rparr>"

text \<open>
  \<open>String.prototype.trim\<close> removes the white space and line terminator code units of
  ECMAScript at both ends.
\<close>

definition js_whitespace :: "16 word \<Rightarrow> bool" where
  "js_whitespace c \<longleftrightarrow>
     c \<in> {0x0009, 0x000A, 0x000B, 0x000C, 0x000D, 0x0020, 0x00A0, 0x1680,
          0x2028, 0x2029, 0x202F, 0x205F, 0x3000, 0xFEFF} \<or>
     (0x2000 \<le> c \<and> c \<le> 0x200A)"

definition js_trim :: "jsstring \<Rightarrow> jsstring" where
  "js_trim s = rev (dropWhile js_whitespace (rev (dropWhile js_whitespace s)))"

definition empty_input_message :: jsstring where
  "empty_input_message = ascii ''Please enter some text to analyze.''"

definition not_ready_message :: jsstring where
  "not_ready_message = ascii ''Tokenizer is not ready yet. Please wait.''"

definition analyse_failed_message :: jsstring where
  "analyse_failed_message = ascii ''Failed to analyze text.''"

text \<open>
  \<open>handleAnalyse\<close>. The two guards return after setting the error; \<open>||\<close> tests
  \<open>tokenizerLoading\<close> first. A throw of \<open>tokenize\<close> is caught inside the handler.
\<close>

definition handleAnalyse :: "App \<Rightarrow> App" where
  "handleAnalyse s =
     (if js_trim (inputText s) = [] then s\<lparr>error := Some empty_input_message\<rparr>
      else if tokenizerLoading s then s\<lparr>error := Some not_ready_message\<rparr>
      else
        case kuromojiTokenizer s of
          None \<Rightarrow> s\<lparr>error := Some not_ready_message\<rparr>
        | Some tokenizer \<Rightarrow>
            let s1 = s\<lparr>isLoading := True, error := None, analysis := None,
                       selectedWord := None,
                       tokenize_calls := tokenize_calls s @ [inputText s]\<rparr> in
            (case tokenize tokenizer (inputText s) of
               Inl err \<Rightarrow> s1\<lparr>error := Some analyse_failed_message, isLoading := False\<rparr>
             | Inr tokens \<Rightarrow>
                 s1\<lparr>analysis := Some \<lparr>word_list = groupTokens tokens\<rparr>,
                    isLoading := False\<rparr>))"

definition handleWordSelect :: "App \<Rightarrow> AnalyzedWord \<Rightarrow> App" where
  "handleWordSelect s word = s\<lparr>selectedWord := Some word\<rparr>"

definition handleCloseInfo :: "App \<Rightarrow> App" where
  "handleCloseInfo s = s\<lparr>selectedWord := None\<rparr>"

text \<open>\<open>Array.prototype.join\<close> on strings.\<close>

fun js_join :: "jsstring \<Rightarrow> jsstring list \<Rightarrow> jsstring" where
  "js_join sep [] = []"
| "js_join sep [x] = x"
| "js_join sep (x # y # ys) = x @ sep @ js_join sep (y # ys)"

text \<open>
  \<open>AnalysisDisplay\<close>: the key of a word, the test that marks a displayed word as the
  selected one, and the marks of the displayed words in order.
\<close>

definition createKey :: "AnalyzedWord \<Rightarrow> jsstring" where
  "createKey word = js_join (ascii ''-'') (map tok_surface word)"

definition isSelected :: "AnalyzedWord option \<Rightarrow> AnalyzedWord \<Rightarrow> bool" where
  "isSelected sel word =
     (case sel of None \<Rightarrow> False | Some sw \<Rightarrow> createKey word = createKey sw)"

definition AnalysisDisplay_marks :: "App \<Rightarrow> bool list" where
  "AnalysisDisplay_marks s =
     (case analysis s of
        None \<Rightarrow> []
      | Some a \<Rightarrow> map (isSelected (selectedWord s)) (word_list a))"

text \<open>
  Two words with the surface U+65B9 and different readings (kata, hou), and a page that
  displays both around neko.
\<close>

definition word_kata :: AnalyzedWord where
  "word_kata = [([0x65B9], [0x30AB, 0x30BF], pos_noun)]"

definition word_hou :: AnalyzedWord where
  "word_hou = [([0x65B9], [0x30DB, 0x30A6], pos_noun)]"

definition App_displaying :: App where
  "App_displaying =
     App_init\<lparr>analysis := Some \<lparr>word_list = [word_kata, word_neko, word_hou]\<rparr>,
              tokenizerLoading := False\<rparr>"

text \<open>A page whose tagger failed to load (no tokenizer, loading over), with no input.\<close>

definition App_load_failed :: App where
  "App_load_failed = App_init\<lparr>inputText := [], tokenizerLoading := False\<rparr>"

text \<open>
  A page that shows an analysis with a selected word, while a reload of the tagger is
  awaited.
\<close>

definition App_not_ready :: App where
  "App_not_ready = App_displaying\<lparr>selectedWord := Some word_neko, tokenizerLoading := True\<rparr>"


section \<open>Properties of grouping\<close>

lemmas tag_defs =
  pos_verb_def pos_auxiliary_verb_def pos_particle_def pos_noun_def
  detail_conjunctive_particle_def detail_sentence_final_particle_def
  detail_non_independent_def detail_suffix_def



lemmas scenario_defs =
  tok_tabe_def tok_ta_def tok_no_def tok_neko_def tok_tachi_def tok_iru_def tok_unknown_def
  mk_token_def



subsection \<open>The scan keeps every token, in order\<close>

lemma group_step_concat:
  "group_step (wl, cw) t = (wl', cw') \<Longrightarrow> concat wl' @ cw' = concat wl @ cw @ [newToken t]"
  by (auto simp: Let_def split: if_splits)

lemma foldl_group_step_concat:
  "foldl group_step (wl, cw) ts = (wl', cw') \<Longrightarrow>
     concat wl' @ cw' = concat wl @ cw @ map newToken ts"
proof (induction ts arbitrary: wl cw)
  case Nil
  then show ?case by simp
next
  case (Cons t ts)
  obtain wl1 cw1 where s: "group_step (wl, cw) t = (wl1, cw1)"
    by (cases "group_step (wl, cw) t")
  from Cons.prems s have "foldl group_step (wl1, cw1) ts = (wl', cw')" by simp
  from Cons.IH [OF this] group_step_concat [OF s] show ?case by simp
qed

lemma group_step_nonempty:
  "group_step (wl, cw) t = (wl', cw') \<Longrightarrow> [] \<notin> set wl \<Longrightarrow> [] \<notin> set wl' \<and> cw' \<noteq> []"
  by (auto simp: Let_def split: if_splits)

lemma foldl_group_step_nonempty:
  "foldl group_step (wl, cw) ts = (wl', cw') \<Longrightarrow> [] \<notin> set wl \<Longrightarrow>
     [] \<notin> set wl' \<and> (ts \<noteq> [] \<or> cw \<noteq> [] \<longrightarrow> cw' \<noteq> [])"
proof (induction ts arbitrary: wl cw)
  case Nil
  then show ?case by simp
next
  case (Cons t ts)
  obtain wl1 cw1 where s: "group_step (wl, cw) t = (wl1, cw1)"
    by (cases "group_step (wl, cw) t")
  from Cons.prems s have f: "foldl group_step (wl1, cw1) ts = (wl', cw')" by simp
  from group_step_nonempty [OF s Cons.prems(2)] have n: "[] \<notin> set wl1" "cw1 \<noteq> []" by simp_all
  from Cons.IH [OF f n(1)] n(2) show ?case by simp
qed

lemma concat_groupTokens: "concat (groupTokens ts) = map newToken ts"
proof (cases ts)
  case Nil
  then show ?thesis by (simp add: groupTokens_def)
next
  case (Cons t ts')
  obtain wl cw where f: "foldl group_step ([], []) ts = (wl, cw)"
    by (cases "foldl group_step ([], []) ts")
  from foldl_group_step_concat [OF f] have c: "concat wl @ cw = map newToken ts" by simp
  show ?thesis using Cons f c by (auto simp: groupTokens_def)
qed

lemma groupTokens_nonempty_words: "[] \<notin> set (groupTokens ts)"
proof (cases ts)
  case Nil
  then show ?thesis by (simp add: groupTokens_def)
next
  case (Cons t ts')
  obtain wl cw where f: "foldl group_step ([], []) ts = (wl, cw)"
    by (cases "foldl group_step ([], []) ts")
  from foldl_group_step_nonempty [OF f] have "[] \<notin> set wl" by simp
  then show ?thesis using Cons f by (auto simp: groupTokens_def)
qed

lemma groupTokens_snoc_state:
  assumes "ts \<noteq> []"
  shows "\<exists>wl cw. foldl group_step ([], []) ts = (wl, cw) \<and> cw \<noteq> [] \<and> groupTokens ts = wl @ [cw]"
proof -
  obtain wl cw where f: "foldl group_step ([], []) ts = (wl, cw)"
    by (cases "foldl group_step ([], []) ts")
  from foldl_group_step_nonempty [OF f] assms have "cw \<noteq> []" by simp
  then show ?thesis using f assms by (simp add: groupTokens_def)
qed


lemma group_step_open:
  "cw \<noteq> [] \<Longrightarrow> group_step (wl, cw) t =
     (if continuation_rule (tok_pos (last cw)) t then (wl, cw @ [newToken t])
      else (wl @ [cw], [newToken t]))"
  by (auto simp: continuation_rule_def last_conv_nth Let_def)

lemma groupTokens_snoc:
  assumes "pre \<noteq> []"
  shows "groupTokens (pre @ [t]) =
     (if continuation_rule (tok_pos (last (last (groupTokens pre)))) t
      then butlast (groupTokens pre) @ [last (groupTokens pre) @ [newToken t]]
      else groupTokens pre @ [[newToken t]])"
proof -
  from groupTokens_snoc_state [OF assms] obtain wl cw where
    f: "foldl group_step ([], []) pre = (wl, cw)" and cw: "cw \<noteq> []"
    and g: "groupTokens pre = wl @ [cw]" by blast
  have "foldl group_step ([], []) (pre @ [t]) = group_step (wl, cw) t"
    using f by simp
  then show ?thesis using cw g
    by (simp add: groupTokens_def group_step_open del: group_step.simps)
qed

text \<open>
  The open word always ends with the token scanned last, so the part of speech the rule
  tests is the one of the token before the current one.
\<close>

lemma last_open_is_previous_token:
  assumes "pre \<noteq> []"
  shows "last (last (groupTokens pre)) = newToken (last pre)"
proof -
  from groupTokens_snoc_state [OF assms] obtain wl cw where
    cw: "cw \<noteq> []" and g: "groupTokens pre = wl @ [cw]" by blast
  have "concat (groupTokens pre) = map newToken pre" by (rule concat_groupTokens)
  with g have "concat wl @ cw = map newToken pre" by simp
  then have "last (concat wl @ cw) = last (map newToken pre)" by simp
  with cw assms g show ?thesis by (simp add: last_map)
qed

lemma groupTokens_verb_chain:
  assumes "pos v = pos_verb"
    and "\<forall>t \<in> set chain. pos t = pos_verb \<and> pos_detail_1 t = detail_non_independent"
  shows "groupTokens (v # chain) = [map newToken (v # chain)]"
  using assms(2)
proof (induction chain rule: rev_induct)
  case Nil
  show ?case by (simp add: groupTokens_def)
next
  case (snoc x xs)
  then have ih: "groupTokens (v # xs) = [map newToken (v # xs)]" by simp
  from snoc.prems have x: "pos x = pos_verb" "pos_detail_1 x = detail_non_independent"
    by simp_all
  have "pos (last (v # xs)) = pos_verb"
    using assms(1) snoc.prems by (cases xs rule: rev_cases) simp_all
  moreover have "last (map newToken (v # xs)) = newToken (last (v # xs))"
    by (rule last_map) simp
  ultimately have p: "tok_pos (last (map newToken (v # xs))) = pos_verb"
    by (simp only: newToken_def tok_pos_def snd_conv)
  have l: "last (groupTokens (v # xs)) = map newToken (v # xs)"
    by (simp add: ih)
  have c: "continuation_rule (tok_pos (last (last (groupTokens (v # xs))))) x"
    unfolding l continuation_rule_def using p x by blast
  have "groupTokens ((v # xs) @ [x]) =
      (if continuation_rule (tok_pos (last (last (groupTokens (v # xs))))) x
       then butlast (groupTokens (v # xs)) @ [last (groupTokens (v # xs)) @ [newToken x]]
       else groupTokens (v # xs) @ [[newToken x]])"
    by (rule groupTokens_snoc) simp
  also have "\<dots> = butlast (groupTokens (v # xs)) @ [last (groupTokens (v # xs)) @ [newToken x]]"
    using c by (simp only: if_True)
  also have "\<dots> = [map newToken (v # xs) @ [newToken x]]"
    unfolding l by (simp add: ih)
  finally show ?case by simp
qed


subsection \<open>Claims about grouping\<close>

text \<open>The internal token, written out on the fields of the raw token.\<close>

lemma newToken_fields:
  "newToken =
     (\<lambda>t. (surface_form t,
            (case reading t of
               None \<Rightarrow> surface_form t
             | Some r \<Rightarrow> if r = [] then surface_form t else r),
            pos t))"
  by (rule ext) (simp add: newToken_def js_or_def)

lemmas eval_defs =
  groupTokens_def scenario_defs tag_defs newToken_def tok_pos_def tok_surface_def
  tok_reading_def js_or_def ascii_def continuation_rule_def

text \<open>
  C2. Coverage: for every token sequence, the surfaces of the tokens of all words of the
  grouping, concatenated in order, are the surfaces of the input tokens concatenated in
  order.
\<close>

theorem groupTokens_surface_coverage:
  "concat (map tok_surface (concat (groupTokens T))) = concat (map surface_form T)"
proof -
  have "map tok_surface (map newToken T) = map surface_form T"
    by (simp add: tok_surface_def newToken_def)
  then show ?thesis by (simp only: concat_groupTokens)
qed

theorem groupTokens_surface_coverage_witness:
  "concat (map tok_surface (concat (groupTokens [tok_tabe, tok_ta, tok_no, tok_neko, tok_tachi])))
     = [0x98DF, 0x3079, 0x305F, 0x306E, 0x732B, 0x305F, 0x3061]"
  using groupTokens_surface_coverage [of "[tok_tabe, tok_ta, tok_no, tok_neko, tok_tachi]"]
  by (simp add: scenario_defs)

text \<open>
  C3. Partition: every word of the grouping is a non-empty token list; the words,
  concatenated in order, are the input tokens in the input order, each as its triple of
  surface, reading (the surface when the reading is absent) and part of speech, so that
  the surfaces and the parts of speech of the output are those of the input, position by
  position; the grouping of the empty sequence is empty, and the grouping is empty only
  if the input is.
\<close>

theorem groupTokens_partition:
  "(\<forall>w \<in> set (groupTokens T). w \<noteq> []) \<and>
   concat (groupTokens T) =
     map (\<lambda>t. (surface_form t,
                (case reading t of
                   None \<Rightarrow> surface_form t
                 | Some r \<Rightarrow> if r = [] then surface_form t else r),
                pos t)) T \<and>
   map tok_surface (concat (groupTokens T)) = map surface_form T \<and>
   map tok_pos (concat (groupTokens T)) = map pos T \<and>
   groupTokens [] = [] \<and>
   (groupTokens T = [] \<longleftrightarrow> T = [])"
proof -
  have e: "groupTokens [] = []" by (simp add: groupTokens_def)
  have "groupTokens T \<noteq> []" if "T \<noteq> []"
    using groupTokens_snoc_state [OF that] by auto
  with e have i: "groupTokens T = [] \<longleftrightarrow> T = []" by auto
  have n: "\<forall>w \<in> set (groupTokens T). w \<noteq> []"
    using groupTokens_nonempty_words [of T] by auto
  have c: "concat (groupTokens T) =
     map (\<lambda>t. (surface_form t,
                (case reading t of
                   None \<Rightarrow> surface_form t
                 | Some r \<Rightarrow> if r = [] then surface_form t else r),
                pos t)) T"
    using concat_groupTokens [of T] unfolding newToken_fields .
  have s: "map tok_surface (concat (groupTokens T)) = map surface_form T"
    by (simp add: concat_groupTokens newToken_def tok_surface_def)
  have p: "map tok_pos (concat (groupTokens T)) = map pos T"
    by (simp add: concat_groupTokens newToken_def tok_pos_def)
  from n c s p e i show ?thesis by blast
qed

theorem groupTokens_partition_witness:
  "[] \<notin> set (groupTokens [tok_neko, tok_tachi, tok_ta]) \<and>
   concat (groupTokens [tok_neko, tok_tachi, tok_ta]) =
     [([0x732B], [0x30CD, 0x30B3], [0x540D, 0x8A5E]),
      ([0x305F, 0x3061], [0x30BF, 0x30C1], [0x540D, 0x8A5E]),
      ([0x305F], [0x30BF], [0x52A9, 0x52D5, 0x8A5E])] \<and>
   map tok_surface (concat (groupTokens [tok_neko, tok_tachi, tok_ta])) =
     [[0x732B], [0x305F, 0x3061], [0x305F]] \<and>
   map tok_pos (concat (groupTokens [tok_neko, tok_tachi, tok_ta])) =
     [[0x540D, 0x8A5E], [0x540D, 0x8A5E], [0x52A9, 0x52D5, 0x8A5E]] \<and>
   groupTokens [tok_neko, tok_tachi, tok_ta] \<noteq> []"
proof -
  have f: "map surface_form [tok_neko, tok_tachi, tok_ta] = [[0x732B], [0x305F, 0x3061], [0x305F]]"
    "map pos [tok_neko, tok_tachi, tok_ta] =
       [[0x540D, 0x8A5E], [0x540D, 0x8A5E], [0x52A9, 0x52D5, 0x8A5E]]"
    "map reading [tok_neko, tok_tachi, tok_ta] =
       [Some [0x30CD, 0x30B3], Some [0x30BF, 0x30C1], Some [0x30BF]]"
    by (simp_all add: scenario_defs tag_defs)
  from groupTokens_partition [of "[tok_neko, tok_tachi, tok_ta]"] f show ?thesis
    by auto
qed

text \<open>
  C4. The continuation rule. When a token \<open>t\<close> follows a non-empty prefix, the open word
  is the last word of the grouping of the prefix, and \<open>prevPOS\<close>, the part of speech of
  the last token of that open word, is the part of speech of the last token of the prefix.
  The token is appended to the open word if and only if one of the four clauses of the
  rule holds; otherwise the open word is emitted as it is and a new word starts with the
  token. Since every step tests the last token of the open word, a verb followed by any
  number of non-independent verbs is one word.
\<close>

theorem groupTokens_continuation:
  "(pre \<noteq> [] \<longrightarrow>
      tok_pos (last (last (groupTokens pre))) = pos (last pre) \<and>
      (continuation_rule (pos (last pre)) t \<longleftrightarrow>
         groupTokens (pre @ [t]) =
           butlast (groupTokens pre) @
           [last (groupTokens pre) @
            [(surface_form t,
              (case reading t of
                 None \<Rightarrow> surface_form t
               | Some r \<Rightarrow> if r = [] then surface_form t else r),
              pos t)]]) \<and>
      (\<not> continuation_rule (pos (last pre)) t \<longleftrightarrow>
         groupTokens (pre @ [t]) =
           groupTokens pre @
           [[(surface_form t,
              (case reading t of
                 None \<Rightarrow> surface_form t
               | Some r \<Rightarrow> if r = [] then surface_form t else r),
              pos t)]])) \<and>
   (pos v = pos_verb \<and>
    (\<forall>c \<in> set chain. pos c = pos_verb \<and> pos_detail_1 c = detail_non_independent) \<longrightarrow>
      groupTokens (v # chain) =
        [map (\<lambda>t. (surface_form t,
                    (case reading t of
                       None \<Rightarrow> surface_form t
                     | Some r \<Rightarrow> if r = [] then surface_form t else r),
                    pos t)) (v # chain)])"
proof -
  have step: "tok_pos (last (last (groupTokens pre))) = pos (last pre) \<and>
      (continuation_rule (pos (last pre)) t \<longleftrightarrow>
         groupTokens (pre @ [t]) =
           butlast (groupTokens pre) @ [last (groupTokens pre) @ [newToken t]]) \<and>
      (\<not> continuation_rule (pos (last pre)) t \<longleftrightarrow>
         groupTokens (pre @ [t]) = groupTokens pre @ [[newToken t]])"
    if pre: "pre \<noteq> []"
  proof -
    let ?g = "groupTokens pre"
    have l: "tok_pos (last (last ?g)) = pos (last pre)"
      by (simp only: last_open_is_previous_token [OF pre] newToken_def tok_pos_def snd_conv)
    from groupTokens_snoc_state [OF pre] have ne: "?g \<noteq> []" by auto
    have "length (butlast ?g @ [last ?g @ [newToken t]]) \<noteq> length (?g @ [[newToken t]])"
      using ne by simp
    then have d: "butlast ?g @ [last ?g @ [newToken t]] \<noteq> ?g @ [[newToken t]]"
      by metis
    have a: "continuation_rule (pos (last pre)) t \<longleftrightarrow>
        groupTokens (pre @ [t]) = butlast ?g @ [last ?g @ [newToken t]]"
      using groupTokens_snoc [OF pre, of t] d unfolding l by (auto split: if_splits)
    have b: "\<not> continuation_rule (pos (last pre)) t \<longleftrightarrow>
        groupTokens (pre @ [t]) = ?g @ [[newToken t]]"
      using groupTokens_snoc [OF pre, of t] d unfolding l by (auto split: if_splits)
    from l a b show ?thesis by blast
  qed
  have chain: "groupTokens (v # chain) = [map newToken (v # chain)]"
    if "pos v = pos_verb \<and>
      (\<forall>c \<in> set chain. pos c = pos_verb \<and> pos_detail_1 c = detail_non_independent)"
    using that groupTokens_verb_chain [of v chain] by blast
  from step chain show ?thesis
    unfolding newToken_fields by blast
qed

theorem groupTokens_continuation_witness:
  "continuation_rule (pos (last [tok_tabe])) tok_ta \<and>
   groupTokens ([tok_tabe] @ [tok_ta]) =
     [[([0x98DF, 0x3079], [0x30BF, 0x30D9], [0x52D5, 0x8A5E]),
       ([0x305F], [0x30BF], [0x52A9, 0x52D5, 0x8A5E])]] \<and>
   \<not> continuation_rule (pos (last [tok_neko])) tok_ta \<and>
   groupTokens ([tok_neko] @ [tok_ta]) =
     [[([0x732B], [0x30CD, 0x30B3], [0x540D, 0x8A5E])],
      [([0x305F], [0x30BF], [0x52A9, 0x52D5, 0x8A5E])]] \<and>
   pos tok_tabe = pos_verb \<and>
   pos tok_iru = pos_verb \<and> pos_detail_1 tok_iru = detail_non_independent \<and>
   groupTokens (tok_tabe # [tok_iru, tok_iru]) =
     [[([0x98DF, 0x3079], [0x30BF, 0x30D9], [0x52D5, 0x8A5E]),
       ([0x3044, 0x308B], [0x30A4, 0x30EB], [0x52D5, 0x8A5E]),
       ([0x3044, 0x308B], [0x30A4, 0x30EB], [0x52D5, 0x8A5E])]]"
proof -
  have g1: "groupTokens [tok_tabe] = [[([0x98DF, 0x3079], [0x30BF, 0x30D9], [0x52D5, 0x8A5E])]]"
    by (simp add: eval_defs)
  have g2: "groupTokens [tok_neko] = [[([0x732B], [0x30CD, 0x30B3], [0x540D, 0x8A5E])]]"
    by (simp add: eval_defs)
  have a: "continuation_rule (pos (last [tok_tabe])) tok_ta"
    by (simp add: eval_defs)
  have b: "\<not> continuation_rule (pos (last [tok_neko])) tok_ta"
    by (simp add: eval_defs)
  have c: "pos tok_tabe = pos_verb \<and>
      (\<forall>c \<in> set [tok_iru, tok_iru].
         pos c = pos_verb \<and> pos_detail_1 c = detail_non_independent)"
    by (simp add: scenario_defs)
  have f: "surface_form tok_ta = [0x305F]" "reading tok_ta = Some [0x30BF]"
    "pos tok_ta = [0x52A9, 0x52D5, 0x8A5E]"
    "surface_form tok_tabe = [0x98DF, 0x3079]" "reading tok_tabe = Some [0x30BF, 0x30D9]"
    "pos tok_tabe = [0x52D5, 0x8A5E]"
    "surface_form tok_iru = [0x3044, 0x308B]" "reading tok_iru = Some [0x30A4, 0x30EB]"
    "pos tok_iru = [0x52D5, 0x8A5E]"
    by (simp_all add: scenario_defs tag_defs)
  have ne: "[tok_tabe] \<noteq> []" "[tok_neko] \<noteq> []"
    by simp_all
  from groupTokens_continuation [of "[tok_tabe]" tok_ta tok_tabe "[tok_iru, tok_iru]"] ne a
  have "groupTokens ([tok_tabe] @ [tok_ta]) =
      butlast (groupTokens [tok_tabe]) @
      [last (groupTokens [tok_tabe]) @
       [(surface_form tok_ta,
         (case reading tok_ta of
            None \<Rightarrow> surface_form tok_ta
          | Some r \<Rightarrow> if r = [] then surface_form tok_ta else r),
         pos tok_ta)]]"
    by blast
  then have x: "groupTokens ([tok_tabe] @ [tok_ta]) =
     [[([0x98DF, 0x3079], [0x30BF, 0x30D9], [0x52D5, 0x8A5E]),
       ([0x305F], [0x30BF], [0x52A9, 0x52D5, 0x8A5E])]]"
    by (simp add: g1 f)
  from groupTokens_continuation [of "[tok_neko]" tok_ta tok_tabe "[tok_iru, tok_iru]"] ne b
  have "groupTokens ([tok_neko] @ [tok_ta]) =
      groupTokens [tok_neko] @
      [[(surface_form tok_ta,
         (case reading tok_ta of
            None \<Rightarrow> surface_form tok_ta
          | Some r \<Rightarrow> if r = [] then surface_form tok_ta else r),
         pos tok_ta)]]"
    by blast
  then have y: "groupTokens ([tok_neko] @ [tok_ta]) =
     [[([0x732B], [0x30CD, 0x30B3], [0x540D, 0x8A5E])],
      [([0x305F], [0x30BF], [0x52A9, 0x52D5, 0x8A5E])]]"
    by (simp add: g2 f)
  from groupTokens_continuation [of "[tok_tabe]" tok_ta tok_tabe "[tok_iru, tok_iru]"] c
  have "groupTokens (tok_tabe # [tok_iru, tok_iru]) =
      [map (\<lambda>t. (surface_form t,
                  (case reading t of
                     None \<Rightarrow> surface_form t
                   | Some r \<Rightarrow> if r = [] then surface_form t else r),
                  pos t)) (tok_tabe # [tok_iru, tok_iru])]"
    by blast
  then have z: "groupTokens (tok_tabe # [tok_iru, tok_iru]) =
     [[([0x98DF, 0x3079], [0x30BF, 0x30D9], [0x52D5, 0x8A5E]),
       ([0x3044, 0x308B], [0x30A4, 0x30EB], [0x52D5, 0x8A5E]),
       ([0x3044, 0x308B], [0x30A4, 0x30EB], [0x52D5, 0x8A5E])]]"
    by (simp add: f)
  from a b c x y z show ?thesis by simp
qed

text \<open>
  C6. For every input token, the output holds one token at the same position, with the
  same surface; its reading is the reading of the input token when the input token has
  one, and the surface of the input token when the reading is absent (undefined, or the
  empty string, the two values that \<open>||\<close> replaces).
\<close>

theorem groupTokens_reading_fallback:
  "i < length T \<Longrightarrow>
     length (concat (groupTokens T)) = length T \<and>
     tok_surface (concat (groupTokens T) ! i) = surface_form (T ! i) \<and>
     tok_reading (concat (groupTokens T) ! i) =
       (case reading (T ! i) of
          None \<Rightarrow> surface_form (T ! i)
        | Some r \<Rightarrow> if r = [] then surface_form (T ! i) else r)"
  by (simp add: concat_groupTokens newToken_def tok_reading_def tok_surface_def js_or_def)

theorem groupTokens_reading_fallback_witness:
  "(1::nat) < length [tok_neko, tok_unknown] \<and>
   map tok_reading (concat (groupTokens [tok_neko, tok_unknown])) =
     [[0x30CD, 0x30B3], ascii ''Bunsekikun'']"
proof -
  have h0: "(0::nat) < length [tok_neko, tok_unknown]" by simp
  have h1: "(1::nat) < length [tok_neko, tok_unknown]" by simp
  have l: "map tok_reading (concat (groupTokens [tok_neko, tok_unknown])) =
      [tok_reading (concat (groupTokens [tok_neko, tok_unknown]) ! 0),
       tok_reading (concat (groupTokens [tok_neko, tok_unknown]) ! 1)]"
    by (simp add: concat_groupTokens)
  show ?thesis
    unfolding l
    using groupTokens_reading_fallback [OF h0] groupTokens_reading_fallback [OF h1]
    by (simp add: scenario_defs)
qed

text \<open>
  C5. The scenario of the specification: the five tokens tabe (verb), ta (auxiliary
  verb), no (particle, conjunctive particle), neko (noun), tachi (noun, suffix) are
  grouped into exactly two words, [tabe, ta, no] and [neko, tachi], each token with its
  surface, its reading and its part of speech.
\<close>

theorem groupTokens_scenario:
  "groupTokens [tok_tabe, tok_ta, tok_no, tok_neko, tok_tachi] =
     [[([0x98DF, 0x3079], [0x30BF, 0x30D9], [0x52D5, 0x8A5E]),
       ([0x305F], [0x30BF], [0x52A9, 0x52D5, 0x8A5E]),
       ([0x306E], [0x30CE], [0x52A9, 0x8A5E])],
      [([0x732B], [0x30CD, 0x30B3], [0x540D, 0x8A5E]),
       ([0x305F, 0x3061], [0x30BF, 0x30C1], [0x540D, 0x8A5E])]]"
  by (simp add: groupTokens_def scenario_defs tag_defs newToken_def tok_pos_def js_or_def
      ascii_def)


section \<open>Properties of the dictionary lookup\<close>

lemma getWordMeaning_fails_iff:
  "(\<exists>err. getWordMeaningWithJisho fetch word = Inl err) \<longleftrightarrow>
     call_failed (fetch word) \<or> (\<exists>st. fetch word = Response True st Unparseable)"
  by (auto simp: getWordMeaningWithJisho_def call_failed_def
      split: fetch_outcome.splits json_body.splits option.splits)

lemma getWordMeaning_constant_fetch:
  "getWordMeaningWithJisho (\<lambda>_. fetch word) k = getWordMeaningWithJisho fetch word"
  by (simp add: getWordMeaningWithJisho_def)

lemma resume_success:
  "getWordMeaningWithJisho (\<lambda>_. outcome) k = Inr r \<Longrightarrow>
     fetchMeaning_resume outcome k' s = s\<lparr>jishoData := r, wi_isLoading := False\<rparr>"
  by (simp add: fetchMeaning_resume_def getWordMeaningWithJisho_def)

lemma resume_failure:
  "getWordMeaningWithJisho (\<lambda>_. outcome) k = Inl err \<Longrightarrow>
     fetchMeaning_resume outcome k' s =
       s\<lparr>wi_error := fetch_failed_message, wi_isLoading := False\<rparr>"
  by (simp add: fetchMeaning_resume_def getWordMeaningWithJisho_def)

text \<open>
  C8, as the code has it. A lookup that completes: when the call succeeds with at least
  one entry, the result is the first entry, and the panel holds it with loading over;
  when the call succeeds with no entry, the result is the absent entry, held the same way
  and not as an error. The lookup throws, and the panel shows its error message, when the
  call has failed (rejected request, or status not ok) and also when the status is ok and
  the body of the response cannot be read; in no other case.
\<close>

theorem lookup_outcomes:
  "(fetch word = Response True st (Json (Some (e # es))) \<longrightarrow>
      getWordMeaningWithJisho fetch word = Inr (Some e) \<and>
      fetchMeaning_resume (fetch word) word s =
        s\<lparr>jishoData := Some e, wi_isLoading := False\<rparr>) \<and>
   (fetch word = Response True st (Json (Some [])) \<longrightarrow>
      getWordMeaningWithJisho fetch word = Inr None \<and>
      fetchMeaning_resume (fetch word) word s =
        s\<lparr>jishoData := None, wi_isLoading := False\<rparr>) \<and>
   ((\<exists>err. getWordMeaningWithJisho fetch word = Inl err) \<longleftrightarrow>
      call_failed (fetch word) \<or> (\<exists>st'. fetch word = Response True st' Unparseable)) \<and>
   (call_failed (fetch word) \<or> (\<exists>st'. fetch word = Response True st' Unparseable) \<longrightarrow>
      fetchMeaning_resume (fetch word) word s =
        s\<lparr>wi_error := fetch_failed_message, wi_isLoading := False\<rparr>) \<and>
   (wi_error (fetchMeaning_resume (fetch word) word s) \<noteq> wi_error s \<longrightarrow>
      call_failed (fetch word) \<or> (\<exists>st'. fetch word = Response True st' Unparseable))"
proof (intro conjI impI)
  assume h: "fetch word = Response True st (Json (Some (e # es)))"
  then show "getWordMeaningWithJisho fetch word = Inr (Some e)"
    by (simp add: getWordMeaningWithJisho_def)
  from h show "fetchMeaning_resume (fetch word) word s =
      s\<lparr>jishoData := Some e, wi_isLoading := False\<rparr>"
    by (simp add: fetchMeaning_resume_def getWordMeaningWithJisho_def)
next
  assume h: "fetch word = Response True st (Json (Some []))"
  then show "getWordMeaningWithJisho fetch word = Inr None"
    by (simp add: getWordMeaningWithJisho_def)
  from h show "fetchMeaning_resume (fetch word) word s =
      s\<lparr>jishoData := None, wi_isLoading := False\<rparr>"
    by (simp add: fetchMeaning_resume_def getWordMeaningWithJisho_def)
next
  show "(\<exists>err. getWordMeaningWithJisho fetch word = Inl err) \<longleftrightarrow>
      call_failed (fetch word) \<or> (\<exists>st'. fetch word = Response True st' Unparseable)"
    by (rule getWordMeaning_fails_iff)
next
  assume "call_failed (fetch word) \<or> (\<exists>st'. fetch word = Response True st' Unparseable)"
  then obtain err where "getWordMeaningWithJisho fetch word = Inl err"
    using getWordMeaning_fails_iff [of fetch word] by blast
  then have "getWordMeaningWithJisho (\<lambda>_. fetch word) word = Inl err"
    by (simp only: getWordMeaning_constant_fetch)
  then show "fetchMeaning_resume (fetch word) word s =
      s\<lparr>wi_error := fetch_failed_message, wi_isLoading := False\<rparr>"
    by (rule resume_failure)
next
  assume c: "wi_error (fetchMeaning_resume (fetch word) word s) \<noteq> wi_error s"
  show "call_failed (fetch word) \<or> (\<exists>st'. fetch word = Response True st' Unparseable)"
  proof (rule ccontr)
    assume "\<not> (call_failed (fetch word) \<or>
      (\<exists>st'. fetch word = Response True st' Unparseable))"
    then obtain r where "getWordMeaningWithJisho fetch word = Inr r"
      using getWordMeaning_fails_iff [of fetch word]
      by (cases "getWordMeaningWithJisho fetch word") auto
    then have "getWordMeaningWithJisho (\<lambda>_. fetch word) word = Inr r"
      by (simp only: getWordMeaning_constant_fetch)
    from resume_success [OF this] c show False by simp
  qed
qed

theorem lookup_outcomes_witness:
  "getWordMeaningWithJisho (\<lambda>_. found [entry_neko, entry_inu]) [0x732B] = Inr (Some entry_neko) \<and>
   jishoData (fetchMeaning_resume (found [entry_neko, entry_inu]) [0x732B] WordInfo_init) =
     Some entry_neko \<and>
   getWordMeaningWithJisho (\<lambda>_. found []) [0x732B] = Inr None \<and>
   wi_error (fetchMeaning_resume (found []) [0x732B] WordInfo_init) = [] \<and>
   call_failed (Response False 500 (Json None)) \<and>
   wi_error (fetchMeaning_resume (Response False 500 (Json None)) [0x732B] WordInfo_init) =
     fetch_failed_message \<and>
   wi_error (fetchMeaning_resume (Response True 200 Unparseable) [0x732B] WordInfo_init) =
     fetch_failed_message"
proof -
  have c: "call_failed (Response False 500 (Json None))"
    by (simp add: call_failed_def)
  show ?thesis
    using c
      lookup_outcomes [of "\<lambda>_. found [entry_neko, entry_inu]" "[0x732B]" 200 entry_neko
        "[entry_inu]" WordInfo_init]
      lookup_outcomes [of "\<lambda>_. found []" "[0x732B]" 200 entry_neko "[]" WordInfo_init]
      lookup_outcomes [of "\<lambda>_. Response False 500 (Json None)" "[0x732B]" 200 entry_neko
        "[]" WordInfo_init]
      lookup_outcomes [of "\<lambda>_. Response True 200 Unparseable" "[0x732B]" 200 entry_neko
        "[]" WordInfo_init]
    by (simp add: found_def WordInfo_init_def)
qed

text \<open>
  C8, as the specification states it, fails: a response with an ok status whose body
  cannot be read is not a failed call, yet the lookup throws and the panel shows its
  error message.
\<close>

theorem unreadable_body_is_error:
  "\<not> call_failed (Response True 200 Unparseable) \<and>
   getWordMeaningWithJisho (\<lambda>_. Response True 200 Unparseable) [0x732B] = Inl BodyUnreadable \<and>
   wi_error (fetchMeaning_resume (Response True 200 Unparseable) [0x732B] WordInfo_init) =
     fetch_failed_message \<and>
   wi_error (fetchMeaning_resume (Response True 200 Unparseable) [0x732B] WordInfo_init) \<noteq>
     wi_error WordInfo_init"
  by (simp add: call_failed_def getWordMeaningWithJisho_def fetchMeaning_resume_def
      WordInfo_init_def fetch_failed_message_def ascii_def)


section \<open>Properties of the word panel\<close>

lemma select_nonempty:
  "WordInfo_step s (Select (Some (a # as))) =
     s\<lparr>wi_selectedWord := Some (a # as), wi_isLoading := True, wi_error := [],
       jishoData := None, in_flight := in_flight s @ [tok_surface a]\<rparr>"
  by (simp add: WordInfo_effect_def Let_def)

lemma settle_success:
  "i < length (in_flight s) \<Longrightarrow> getWordMeaningWithJisho (\<lambda>_. outcome) k = Inr r \<Longrightarrow>
     WordInfo_step s (Settle i outcome) =
       s\<lparr>in_flight := take i (in_flight s) @ drop (Suc i) (in_flight s),
         jishoData := r, wi_isLoading := False\<rparr>"
  by (simp add: resume_success)

lemmas panel_defs =
  WordInfo_run_def WordInfo_init_def WordInfo_effect_def fetchMeaning_resume_def
  getWordMeaningWithJisho_def found_def word_neko_def word_inu_def entry_neko_def
  entry_inu_def mk_entry_def tok_surface_def Let_def

text \<open>
  C1, as the code has it. The panel applies the result of every lookup that settles, and
  keeps no mark of which selection a lookup belongs to. Word A is selected, then word B,
  and both lookups succeed: if the lookup of B settles first and the lookup of A last,
  the panel ends with the result of A, while B is the selected word; if the lookup of A
  settles first and the lookup of B last, the panel ends with the result of B.
\<close>

theorem last_settled_lookup_wins:
  assumes A: "A = a # as" and B: "B = b # bs"
    and rA: "getWordMeaningWithJisho (\<lambda>_. oA) (tok_surface a) = Inr rA"
    and rB: "getWordMeaningWithJisho (\<lambda>_. oB) (tok_surface b) = Inr rB"
    and n: "n = length (in_flight s)"
  shows "jishoData (WordInfo_run s
            [Select (Some A), Select (Some B), Settle (Suc n) oB, Settle n oA]) = rA \<and>
         wi_selectedWord (WordInfo_run s
            [Select (Some A), Select (Some B), Settle (Suc n) oB, Settle n oA]) = Some B \<and>
         jishoData (WordInfo_run s
            [Select (Some A), Select (Some B), Settle n oA, Settle n oB]) = rB \<and>
         wi_selectedWord (WordInfo_run s
            [Select (Some A), Select (Some B), Settle n oA, Settle n oB]) = Some B"
  unfolding WordInfo_run_def A B n
  by (simp add: select_nonempty settle_success [OF _ rA] settle_success [OF _ rB]
      del: WordInfo_step.simps)

theorem last_settled_lookup_wins_witness:
  "jishoData (WordInfo_run WordInfo_init
      [Select (Some word_neko), Select (Some word_inu),
       Settle (Suc 0) (found [entry_inu]), Settle 0 (found [entry_neko])]) = Some entry_neko \<and>
   jishoData (WordInfo_run WordInfo_init
      [Select (Some word_neko), Select (Some word_inu),
       Settle 0 (found [entry_neko]), Settle 0 (found [entry_inu])]) = Some entry_inu"
proof -
  have A: "word_neko = ([0x732B], [0x30CD, 0x30B3], pos_noun) # []"
    by (simp add: word_neko_def)
  have B: "word_inu = ([0x72AC], [0x30A4, 0x30CC], pos_noun) # []"
    by (simp add: word_inu_def)
  have rA: "getWordMeaningWithJisho (\<lambda>_. found [entry_neko])
      (tok_surface ([0x732B], [0x30CD, 0x30B3], pos_noun)) = Inr (Some entry_neko)"
    by (simp add: getWordMeaningWithJisho_def found_def)
  have rB: "getWordMeaningWithJisho (\<lambda>_. found [entry_inu])
      (tok_surface ([0x72AC], [0x30A4, 0x30CC], pos_noun)) = Inr (Some entry_inu)"
    by (simp add: getWordMeaningWithJisho_def found_def)
  have n: "0 = length (in_flight WordInfo_init)"
    by (simp add: WordInfo_init_def)
  from last_settled_lookup_wins [OF A B rA rB n] show ?thesis by simp
qed

text \<open>
  C1, as the specification states it, fails: neko is selected, then inu; the lookup of inu
  settles first, the lookup of neko last. The panel ends with the entry of neko, not with
  the entry of inu, while inu is the selected word.
\<close>

theorem stale_result_overwrites:
  "wi_selectedWord race_late_first = Some word_inu \<and>
   jishoData race_late_first = Some entry_neko \<and>
   jishoData race_late_first \<noteq> Some entry_inu"
  by (simp add: race_late_first_def panel_defs)


section \<open>Properties of the page\<close>

lemma message_distinct:
  "not_ready_message \<noteq> empty_input_message" "not_ready_message \<noteq> analyse_failed_message"
  by (simp_all add: not_ready_message_def empty_input_message_def analyse_failed_message_def
      ascii_def)

lemmas page_defs =
  App_init_def App_displaying_def App_load_failed_def App_not_ready_def word_kata_def
  word_hou_def word_neko_def

text \<open>
  C7, as the code has it. When analysis is requested while the tagger is not ready (still
  loading, or not built), the handler returns at once: \<open>tokenize\<close> is not called, and
  nothing changes but the error message. The message is the "not ready" one, which differs
  from the two other messages of the handler, when the input is not blank; the handler
  tests the input first, so on blank input the message is the one of blank input.
\<close>

theorem handleAnalyse_not_ready:
  "tokenizerLoading s \<or> kuromojiTokenizer s = None \<Longrightarrow>
     handleAnalyse s =
       s\<lparr>error := Some (if js_trim (inputText s) = [] then empty_input_message
                         else not_ready_message)\<rparr> \<and>
     tokenize_calls (handleAnalyse s) = tokenize_calls s \<and>
     not_ready_message \<noteq> empty_input_message \<and>
     not_ready_message \<noteq> analyse_failed_message"
  by (auto simp: handleAnalyse_def message_distinct)

theorem handleAnalyse_not_ready_witness:
  "(tokenizerLoading App_not_ready \<or> kuromojiTokenizer App_not_ready = None) \<and>
   error (handleAnalyse App_not_ready) = Some not_ready_message \<and>
   tokenize_calls (handleAnalyse App_not_ready) = tokenize_calls App_not_ready"
proof -
  have h: "tokenizerLoading App_not_ready \<or> kuromojiTokenizer App_not_ready = None"
    by (simp add: page_defs)
  have t: "js_trim (inputText App_not_ready) \<noteq> []"
    by (simp add: page_defs js_trim_def js_whitespace_def)
  from handleAnalyse_not_ready [OF h] h t show ?thesis by simp
qed

text \<open>
  C7, as the specification states it, fails: on a page whose tagger failed to load and
  whose input is empty, the request is rejected with the message of blank input, not with
  the "not ready" one.
\<close>

theorem blank_input_before_not_ready:
  "kuromojiTokenizer App_load_failed = None \<and>
   error (handleAnalyse App_load_failed) = Some empty_input_message \<and>
   error (handleAnalyse App_load_failed) \<noteq> Some not_ready_message"
  using message_distinct
  by (simp add: App_load_failed_def App_init_def handleAnalyse_def js_trim_def)

text \<open>
  C10. When an analysis request is rejected, for blank input or because the tagger is not
  ready, the handler sets an error message and changes nothing else: the displayed
  analysis and the selected word are as before.
\<close>

theorem handleAnalyse_rejected_unchanged:
  "js_trim (inputText s) = [] \<or> tokenizerLoading s \<or> kuromojiTokenizer s = None \<Longrightarrow>
     (\<exists>msg. handleAnalyse s = s\<lparr>error := Some msg\<rparr>) \<and>
     analysis (handleAnalyse s) = analysis s \<and>
     selectedWord (handleAnalyse s) = selectedWord s"
  by (auto simp: handleAnalyse_def)

theorem handleAnalyse_rejected_unchanged_witness:
  "(js_trim (inputText App_not_ready) = [] \<or> tokenizerLoading App_not_ready \<or>
      kuromojiTokenizer App_not_ready = None) \<and>
   analysis (handleAnalyse App_not_ready) =
     Some \<lparr>word_list = [word_kata, word_neko, word_hou]\<rparr> \<and>
   selectedWord (handleAnalyse App_not_ready) = Some word_neko"
proof -
  have h: "js_trim (inputText App_not_ready) = [] \<or> tokenizerLoading App_not_ready \<or>
      kuromojiTokenizer App_not_ready = None"
    by (simp add: App_not_ready_def)
  from handleAnalyse_rejected_unchanged [OF h] h show ?thesis
    by (simp add: App_not_ready_def App_displaying_def)
qed

text \<open>
  C9, as the code has it. The page holds at most one selected word: selecting a word
  replaces the selection by that word. There is no generation counter: a displayed word is
  marked as the selected one exactly when its key, the surfaces of its tokens joined by
  \<open>-\<close>, equals the key of the selected word; so every displayed word with the token
  surfaces of the selected word is marked with it.
\<close>

theorem selection_marks_by_key:
  "selectedWord (handleWordSelect s w) = Some w \<and>
   (isSelected (selectedWord (handleWordSelect s w)) w' \<longleftrightarrow> createKey w' = createKey w) \<and>
   (map tok_surface w' = map tok_surface w \<longrightarrow>
      isSelected (selectedWord (handleWordSelect s w)) w')"
  by (simp add: handleWordSelect_def isSelected_def createKey_def)

theorem selection_marks_by_key_witness:
  "map tok_surface word_hou = map tok_surface word_kata \<and>
   selectedWord (handleWordSelect App_displaying word_kata) = Some word_kata \<and>
   isSelected (selectedWord (handleWordSelect App_displaying word_kata)) word_hou"
proof -
  have h: "map tok_surface word_hou = map tok_surface word_kata"
    by (simp add: word_kata_def word_hou_def tok_surface_def)
  from selection_marks_by_key [of App_displaying word_kata word_hou] h show ?thesis
    by blast
qed

text \<open>
  C9, as the specification states it, fails: two different words with the same surface
  are displayed; selecting the first marks the second as well.
\<close>

theorem same_surface_marked_together:
  "word_kata \<noteq> word_hou \<and>
   map tok_surface word_kata = map tok_surface word_hou \<and>
   AnalysisDisplay_marks (handleWordSelect App_displaying word_kata) = [True, False, True]"
  by (simp add: page_defs tok_surface_def AnalysisDisplay_marks_def handleWordSelect_def
      isSelected_def createKey_def ascii_def)

end
